theory Spec2Isabelle
  imports Main "HOL-Library.AList"
begin

section \<open>Handlers\<close>

datatype InputMode = InputModeFlow | InputModeFork

datatype OutputMode = OutputModeFlow | OutputModeUnite

datatype ConcatenationMode = ConcatenationModePrepend | ConcatenationModeAppend

text \<open>
  A \<^verbatim>\<open>*FileHandler\<close> is an address in a store of file handlers (below); pointer
  equality is equality of addresses.
\<close>

type_synonym fhid = nat

text \<open>
  \<^verbatim>\<open>Handler\<close> is an interface. The construction code below meets four kinds of values:
  a handler that some package registered (named, with the extension its
  \<^verbatim>\<open>OutputExt()\<close> returns), and the three that \<^verbatim>\<open>NewDefaultHandler\<close>,
  \<^verbatim>\<open>NewForkHandler\<close> and \<^verbatim>\<open>NewConcatenationHandler\<close> build from their arguments. The
  fork handler owns the fresh \<^verbatim>\<open>FileHandler\<close> that \<^verbatim>\<open>NewFileHandler\<close> returned, of which
  only the chain is set.
\<close>

datatype Handler =
    Transformation string string
  | DefaultHandler string
  | ForkHandler "Handler list" string
  | ConcatenationHandler fhid fhid ConcatenationMode string

datatype error =
    IncompatibleChains "Handler list" "Handler list"
  | IndexOutOfRange
  | NilOptions
  | NegativeChanSize
  | IOError

text \<open>
  Modelled from the spec: the \<^verbatim>\<open>OutputExt\<close> methods of the default, fork and
  concatenation handlers, whose source files are not part of the sources at hand. The
  default step is a pass-through whose output extension equals the input extension; past a
  fork step the original stream continues unaffected; a concatenation step carries the
  shared extension it was built with. A registered handler answers with its own extension.
\<close>

fun OutputExt :: "Handler \<Rightarrow> string" where
  "OutputExt (Transformation name outExt) = outExt"
| "OutputExt (DefaultHandler ext) = ext"
| "OutputExt (ForkHandler sub ext) = ext"
| "OutputExt (ConcatenationHandler parent child mode ext) = ext"

section \<open>The FD budget (fdBucket, SetFDLimit, shouldOpenFD, waitFD, fdClosed)\<close>

text \<open>
  \<^verbatim>\<open>fdBucket\<close> is a buffered channel of empty structs. Only two numbers of a buffered
  channel of \<^verbatim>\<open>struct{}\<close> can be observed: its capacity and the number of elements
  it holds, which is the number of permits currently held.
\<close>

record fdBucket =
  cap :: nat
  held :: nat

text \<open>\<^verbatim>\<open>var fdBucket = make(chan struct{}, 10)\<close>\<close>

definition fdBucket_init :: fdBucket where
  "fdBucket_init = \<lparr>cap = 10, held = 0\<rparr>"

text \<open>
  \<^verbatim>\<open>SetFDLimit\<close> replaces the channel by a fresh, empty one. \<^verbatim>\<open>make\<close> panics on a
  negative size.
\<close>

definition SetFDLimit :: "int \<Rightarrow> error + fdBucket" where
  "SetFDLimit limit =
     (if limit < 0 then Inl NegativeChanSize else Inr \<lparr>cap = nat limit, held = 0\<rparr>)"

text \<open>
  \<^verbatim>\<open>shouldOpenFD\<close>: each round of the loop is a \<^verbatim>\<open>select\<close> with a default branch. The
  send succeeds when the channel has room, and then \<^verbatim>\<open>n\<close> is decremented and compared with
  zero; otherwise the default branch returns false at once, with the channel as it is at
  that moment. The loop ends because every round that continues has put one more element
  into a bounded channel. The counter is an \<^typ>\<open>int\<close>: a Go \<^verbatim>\<open>int\<close> cannot wrap around
  here, since the channel is full long before.
\<close>

function shouldOpenFD :: "int \<Rightarrow> fdBucket \<Rightarrow> bool \<times> fdBucket" where
  "shouldOpenFD n b =
     (if held b < cap b
      then (if n - 1 = 0 then (True, b\<lparr>held := held b + 1\<rparr>)
            else shouldOpenFD (n - 1) (b\<lparr>held := held b + 1\<rparr>))
      else (False, b))"
  by pat_completeness auto
termination
  by (relation "measure (\<lambda>(n, b). cap b - held b)") auto

declare shouldOpenFD.simps [simp del]

text \<open>
  \<^verbatim>\<open>waitFD\<close> sends and \<^verbatim>\<open>fdClosed\<close> receives, both blocking. A call that cannot proceed
  in the present state of the channel is \<^const>\<open>None\<close>: the goroutine is parked and the call
  has not returned.
\<close>

definition waitFD :: "fdBucket \<Rightarrow> fdBucket option" where
  "waitFD b = (if held b < cap b then Some (b\<lparr>held := held b + 1\<rparr>) else None)"

definition fdClosed :: "fdBucket \<Rightarrow> fdBucket option" where
  "fdClosed b = (if 0 < held b then Some (b\<lparr>held := held b - 1\<rparr>) else None)"

text \<open>
  The calls a program can make against the budget, and a run of completed calls in the
  order in which they completed. A run in which a blocking call cannot complete has no
  result.
\<close>

datatype fd_op = TryAcquire int | BlockingAcquire | Release | SetLimit int

fun fd_step :: "fd_op \<Rightarrow> fdBucket \<Rightarrow> fdBucket option" where
  "fd_step (TryAcquire n) b = Some (snd (shouldOpenFD n b))"
| "fd_step BlockingAcquire b = waitFD b"
| "fd_step Release b = fdClosed b"
| "fd_step (SetLimit l) b = (case SetFDLimit l of Inl e \<Rightarrow> None | Inr b' \<Rightarrow> Some b')"

fun fd_run :: "fd_op list \<Rightarrow> fdBucket \<Rightarrow> fdBucket option" where
  "fd_run [] b = Some b"
| "fd_run (x # xs) b = (case fd_step x b of None \<Rightarrow> None | Some b' \<Rightarrow> fd_run xs b')"

section \<open>The step of the execution engine that accounts for descriptors\<close>

text \<open>
  The body of the goroutine that \<^verbatim>\<open>handlerFn\<close> of \<^verbatim>\<open>FileHandler.Handle\<close> starts for one
  step, as far as the FD budget is concerned, run with no other goroutine touching the
  budget meanwhile. \<open>fds\<close> is \<^const>\<open>None\<close> when the handler is not an
  \<^verbatim>\<open>FDHandler\<close>, and \<open>Some nFds\<close> with the value of \<^verbatim>\<open>RequiredFds()\<close> when it is.
  \<open>copied\<close> says whether \<^verbatim>\<open>io.Copy(data, in)\<close> succeeds when the input is read into
  memory. The outcome of \<^verbatim>\<open>handler.Handle\<close> itself has no part in the accounting: the
  deferred \<^verbatim>\<open>fdClosed\<close> runs after it either way. The result is \<^const>\<open>None\<close> when the
  goroutine is parked in \<^verbatim>\<open>waitFD\<close> or \<^verbatim>\<open>fdClosed\<close>.
\<close>

definition handlerFn :: "int option \<Rightarrow> bool \<Rightarrow> fdBucket \<Rightarrow> fdBucket option" where
  "handlerFn fds copied b =
     (case fds of
        None \<Rightarrow> Some b
      | Some nFds \<Rightarrow>
          if 0 < nFds
          then (case shouldOpenFD nFds b of
                  (True, b1) \<Rightarrow> fdClosed b1
                | (False, b1) \<Rightarrow>
                    if \<not> copied then Some b1
                    else (case waitFD b1 of None \<Rightarrow> None | Some b2 \<Rightarrow> fdClosed b2))
          else fdClosed b)"

section \<open>The extension registry\<close>

record HandlerOptions =
  InputMode :: InputMode
  OutputMode :: OutputMode

text \<open>\<^verbatim>\<open>Options\<close> is a pointer and may be nil.\<close>

record RegisteredHandler =
  Handler :: Handler
  Options :: "HandlerOptions option"

text \<open>
  \<^verbatim>\<open>registeredHandlers\<close> maps an input extension to a map from output extensions to
  registered handlers. The inner map is kept as an association list with distinct keys,
  since \<^verbatim>\<open>buildHandlerChain\<close> ranges over it: Go leaves the order of a range over a map
  unspecified, and the order of the list stands for the order taken. An absent outer key is
  the nil map.
\<close>

type_synonym registry = "string \<rightharpoonup> (string \<times> RegisteredHandler) list"

definition registeredHandlers_init :: registry where
  "registeredHandlers_init = Map.empty"

definition Register ::
  "string \<Rightarrow> string \<Rightarrow> Handler \<Rightarrow> HandlerOptions option \<Rightarrow> registry \<Rightarrow> registry" where
  "Register inExt outExt handler options reg =
     reg(inExt \<mapsto> AList.update outExt \<lparr>Handler = handler, Options = options\<rparr>
                     (case reg inExt of None \<Rightarrow> [] | Some m \<Rightarrow> m))"

definition FindHandlers :: "registry \<Rightarrow> string \<Rightarrow> (string \<times> RegisteredHandler) list option" where
  "FindHandlers reg inExt =
     (case reg inExt of Some handlers \<Rightarrow> Some handlers | None \<Rightarrow> reg ''*'')"

text \<open>\<^verbatim>\<open>registeredHandlers[inExt][outExt]\<close>; indexing a nil map yields nil.\<close>

definition registered :: "registry \<Rightarrow> string \<Rightarrow> string \<Rightarrow> RegisteredHandler option" where
  "registered reg inExt outExt = (case reg inExt of None \<Rightarrow> None | Some m \<Rightarrow> map_of m outExt)"

section \<open>The chain builder (NewFileHandler, buildHandlerChain)\<close>

text \<open>
  \<^verbatim>\<open>buildHandlerChain\<close> calls itself, directly for a Flow entry and through
  \<^verbatim>\<open>NewFileHandler\<close> for every other entry, and nothing in it bounds the depth of these
  calls. The model carries fuel, the depth of nested calls still allowed: \<^const>\<open>None\<close>
  means that the fuel did not suffice. The chain of the receiver is passed in and the
  extended chain returned. \<open>range_handlers\<close> is the \<^verbatim>\<open>for outExt, rh := range handlers\<close>
  loop, with \<^verbatim>\<open>canAppendFlow\<close> and the chain as its state. Reading
  \<^verbatim>\<open>rh.Options.InputMode\<close> through a nil \<^verbatim>\<open>Options\<close> panics.
\<close>

fun buildHandlerChain ::
  "nat \<Rightarrow> registry \<Rightarrow> string \<Rightarrow> Handler list \<Rightarrow> (error + Handler list) option"
and range_handlers ::
  "nat \<Rightarrow> registry \<Rightarrow> string \<Rightarrow> (string \<times> RegisteredHandler) list \<Rightarrow> bool \<Rightarrow> Handler list
     \<Rightarrow> (error + Handler list) option"
where
  "buildHandlerChain 0 reg inExt chain = None"
| "buildHandlerChain (Suc fuel) reg inExt chain =
     (case FindHandlers reg inExt of
        None \<Rightarrow>
          if length chain = 0 then Some (Inr (chain @ [DefaultHandler inExt]))
          else range_handlers fuel reg inExt [] True chain
      | Some handlers \<Rightarrow> range_handlers fuel reg inExt handlers True chain)"
| "range_handlers fuel reg inExt [] canAppendFlow chain = Some (Inr chain)"
| "range_handlers fuel reg inExt ((outExt, rh) # rest) canAppendFlow chain =
     (case Options rh of
        None \<Rightarrow> Some (Inl NilOptions)
      | Some opts \<Rightarrow>
          if InputMode opts = InputModeFlow \<and> canAppendFlow
          then (case buildHandlerChain fuel reg outExt (chain @ [Handler rh]) of
                  None \<Rightarrow> None
                | Some (Inl e) \<Rightarrow> Some (Inl e)
                | Some (Inr chain') \<Rightarrow> range_handlers fuel reg inExt rest False chain')
          else (case buildHandlerChain fuel reg inExt [] of
                  None \<Rightarrow> None
                | Some (Inl e) \<Rightarrow> Some (Inl e)
                | Some (Inr sub) \<Rightarrow>
                    range_handlers fuel reg inExt rest canAppendFlow
                      (chain @ [ForkHandler sub inExt])))"

record FileHandler =
  HandlerChain :: "Handler list"
  FileSet :: "fhid list"
  ParentHandlers :: "fhid list"
  File :: "nat option"

definition NewFileHandler :: "nat \<Rightarrow> registry \<Rightarrow> string \<Rightarrow> (error + FileHandler) option" where
  "NewFileHandler fuel reg inExt =
     (case buildHandlerChain fuel reg inExt [] of
        None \<Rightarrow> None
      | Some (Inl e) \<Rightarrow> Some (Inl e)
      | Some (Inr chain) \<Rightarrow>
          Some (Inr \<lparr>HandlerChain = chain, FileSet = [], ParentHandlers = [], File = None\<rparr>))"

section \<open>The store of file handlers and the merge engine\<close>

text \<open>
  File handlers refer to each other by pointer (\<^verbatim>\<open>FileSet\<close>, \<^verbatim>\<open>ParentHandlers\<close>, the
  parent and child of a concatenation handler) and are updated in place, so they live in a
  store from addresses to records. Every address used is taken to be allocated.
\<close>

type_synonym store = "fhid \<Rightarrow> FileHandler"

text \<open>
  \<^verbatim>\<open>addHandlerAfterIndex\<close> rebuilds the chain, copying each handler and putting the new
  one behind the handler at \<^verbatim>\<open>index\<close>; \<open>i\<close> is the position of the head of the list in
  the chain.
\<close>

fun addHandlerAfterIndex_loop :: "Handler \<Rightarrow> nat \<Rightarrow> nat \<Rightarrow> Handler list \<Rightarrow> Handler list" where
  "addHandlerAfterIndex_loop handler index i [] = []"
| "addHandlerAfterIndex_loop handler index i (h # hs) =
     (if i = index then h # handler # addHandlerAfterIndex_loop handler index (Suc i) hs
      else h # addHandlerAfterIndex_loop handler index (Suc i) hs)"

definition addHandlerAfterIndex :: "fhid \<Rightarrow> Handler \<Rightarrow> nat \<Rightarrow> store \<Rightarrow> store" where
  "addHandlerAfterIndex fileHandler handler index s =
     s(fileHandler := (s fileHandler)
        \<lparr>HandlerChain := addHandlerAfterIndex_loop handler index 0 (HandlerChain (s fileHandler))\<rparr>)"

definition AddParentFileHandler :: "fhid \<Rightarrow> fhid \<Rightarrow> store \<Rightarrow> store" where
  "AddParentFileHandler fileHandler fh s =
     s(fileHandler := (s fileHandler)\<lparr>ParentHandlers := ParentHandlers (s fileHandler) @ [fh]\<rparr>)"

definition AddFileHandler :: "fhid \<Rightarrow> fhid \<Rightarrow> store \<Rightarrow> store" where
  "AddFileHandler fileHandler fh s =
     (let s1 = (if fh \<noteq> fileHandler then AddParentFileHandler fh fileHandler s else s)
      in s1(fileHandler := (s1 fileHandler)\<lparr>FileSet := FileSet (s1 fileHandler) @ [fh]\<rparr>))"

text \<open>The loop of \<^verbatim>\<open>concatenateAtIndex\<close> that picks the mode, over \<^verbatim>\<open>parent.FileSet\<close>.\<close>

fun concatenationMode :: "fhid \<Rightarrow> fhid \<Rightarrow> fhid list \<Rightarrow> ConcatenationMode" where
  "concatenationMode parent child [] = ConcatenationModePrepend"
| "concatenationMode parent child (fh # rest) =
     (if fh = child then ConcatenationModePrepend
      else if fh = parent then ConcatenationModeAppend
      else concatenationMode parent child rest)"

text \<open>\<^verbatim>\<open>parent.HandlerChain[handlerIndex]\<close> panics when the index is out of range.\<close>

definition concatenateAtIndex :: "fhid \<Rightarrow> fhid \<Rightarrow> nat \<Rightarrow> store \<Rightarrow> error + store" where
  "concatenateAtIndex parent child handlerIndex s =
     (let mode = concatenationMode parent child (FileSet (s parent))
      in if handlerIndex < length (HandlerChain (s parent))
         then (let ext = OutputExt (HandlerChain (s parent) ! handlerIndex)
               in Inr (addHandlerAfterIndex parent
                         (ConcatenationHandler parent child mode ext) handlerIndex s))
         else Inl IndexOutOfRange)"

text \<open>
  The two loops of \<^verbatim>\<open>removeIncompatibleHandlers\<close>, each counting down from the length:
  the argument \<open>Suc j\<close> stands for the index \<open>j\<close>. The first pair of equal output
  extensions ends both loops.
\<close>

fun scan_b :: "string \<Rightarrow> Handler list \<Rightarrow> nat \<Rightarrow> nat option" where
  "scan_b ext b 0 = None"
| "scan_b ext b (Suc j) = (if ext = OutputExt (b ! j) then Some j else scan_b ext b j)"

fun scan_a :: "Handler list \<Rightarrow> Handler list \<Rightarrow> nat \<Rightarrow> (nat \<times> nat) option" where
  "scan_a a b 0 = None"
| "scan_a a b (Suc i) =
     (case scan_b (OutputExt (a ! i)) b (length b) of
        Some j \<Rightarrow> Some (i, j)
      | None \<Rightarrow> scan_a a b i)"

text \<open>
  \<^verbatim>\<open>removeIncompatibleHandlers\<close> returns the index into \<^verbatim>\<open>b\<close> or an error. The
  assignment \<^verbatim>\<open>a = a[0:i]\<close> before the return binds the function's own parameter to a
  shorter slice; the slice of the caller is a different variable and keeps its length, and
  the function returns nothing else. \<open>removeIncompatibleHandlers_a\<close> is the value of that
  local variable at the return, for reference.
\<close>

definition removeIncompatibleHandlers :: "Handler list \<Rightarrow> Handler list \<Rightarrow> error + nat" where
  "removeIncompatibleHandlers a b =
     (case scan_a a b (length a) of
        Some (i, j) \<Rightarrow> Inr j
      | None \<Rightarrow> Inl (IncompatibleChains a b))"

definition removeIncompatibleHandlers_a :: "Handler list \<Rightarrow> Handler list \<Rightarrow> Handler list" where
  "removeIncompatibleHandlers_a a b =
     (case scan_a a b (length a) of Some (i, j) \<Rightarrow> take i a | None \<Rightarrow> a)"

text \<open>
  \<^verbatim>\<open>MergeWithParents\<close> sorts \<^verbatim>\<open>ParentHandlers\<close> in place by the length of the parents'
  chains, ascending (the comparison type \<^verbatim>\<open>byLenHandlerChain\<close> is named after its key),
  and merges into each parent in that order. \<^verbatim>\<open>sort.Sort\<close> is not stable;
  \<^const>\<open>sort_key\<close> gives one of the orders it may produce, and the loop
  \<open>merge_parents\<close> is defined for any order. After an error the build is abandoned, so
  the store is not returned with it.
\<close>

fun merge_parents :: "fhid \<Rightarrow> fhid list \<Rightarrow> store \<Rightarrow> error + store" where
  "merge_parents fileHandler [] s = Inr s"
| "merge_parents fileHandler (parent # rest) s =
     (case removeIncompatibleHandlers (HandlerChain (s fileHandler)) (HandlerChain (s parent)) of
        Inl err \<Rightarrow> Inl err
      | Inr index \<Rightarrow>
          (case concatenateAtIndex parent fileHandler index s of
             Inl err \<Rightarrow> Inl err
           | Inr s' \<Rightarrow> merge_parents fileHandler rest s'))"

definition MergeWithParents :: "fhid \<Rightarrow> store \<Rightarrow> error + store" where
  "MergeWithParents fileHandler s =
     (let sorted = sort_key (\<lambda>p. length (HandlerChain (s p))) (ParentHandlers (s fileHandler))
      in merge_parents fileHandler sorted
           (s(fileHandler := (s fileHandler)\<lparr>ParentHandlers := sorted\<rparr>)))"

section \<open>The orchestrator (ConfigureHandlers, WriteOutput)\<close>

text \<open>
  A file of the manifest, as far as \<^verbatim>\<open>ConfigureHandlers\<close> reads it: its extension and,
  for each of its directives in order, the files that \<^verbatim>\<open>directive.Files()\<close> returns.
  Files are numbered by their position in the list of the manifest's files, and the handler
  of file \<open>k\<close> is stored at address \<open>k\<close>. The ranges over \<^verbatim>\<open>FilePathMapping\<close> are taken
  in the order of that list.
\<close>

record File =
  Ext :: string
  Directives :: "nat list list"

definition empty_store :: store where
  "empty_store = (\<lambda>k. \<lparr>HandlerChain = [], FileSet = [], ParentHandlers = [], File = None\<rparr>)"

text \<open>The first loop: a handler with a fresh chain for every file.\<close>

fun build_handlers :: "nat \<Rightarrow> registry \<Rightarrow> File list \<Rightarrow> nat \<Rightarrow> store \<Rightarrow> (error + store) option" where
  "build_handlers fuel reg [] k s = Some (Inr s)"
| "build_handlers fuel reg (file # files) k s =
     (case NewFileHandler fuel reg (Ext file) of
        None \<Rightarrow> None
      | Some (Inl e) \<Rightarrow> Some (Inl e)
      | Some (Inr fh) \<Rightarrow> build_handlers fuel reg files (Suc k) (s(k := fh\<lparr>File := Some k\<rparr>)))"

text \<open>
  The second loop: for the file with handler \<open>self\<close>, every file of every directive is
  added, and the handler itself is added at the end unless a directive named it.
\<close>

fun add_directive_files :: "fhid \<Rightarrow> nat list \<Rightarrow> bool \<Rightarrow> store \<Rightarrow> bool \<times> store" where
  "add_directive_files self [] selfAdded s = (selfAdded, s)"
| "add_directive_files self (f # fs) selfAdded s =
     add_directive_files self fs (selfAdded \<or> f = self) (AddFileHandler self f s)"

definition configure_file :: "fhid \<Rightarrow> File \<Rightarrow> store \<Rightarrow> store" where
  "configure_file self file s =
     (case add_directive_files self (concat (Directives file)) False s of
        (selfAdded, s1) \<Rightarrow> if \<not> selfAdded then AddFileHandler self self s1 else s1)"

fun configure_files :: "File list \<Rightarrow> nat \<Rightarrow> store \<Rightarrow> store" where
  "configure_files [] k s = s"
| "configure_files (file # files) k s = configure_files files (Suc k) (configure_file k file s)"

text \<open>The last loop: \<^verbatim>\<open>MergeWithParents\<close> for every handler, stopping at the first error.\<close>

fun merge_all :: "fhid list \<Rightarrow> store \<Rightarrow> error + store" where
  "merge_all [] s = Inr s"
| "merge_all (fh # fhs) s =
     (case MergeWithParents fh s of Inl err \<Rightarrow> Inl err | Inr s' \<Rightarrow> merge_all fhs s')"

text \<open>
  \<^verbatim>\<open>ConfigureHandlers\<close>. Between the second and the last loop the handlers are sorted by
  the number of their parents, most first. On success the model returns
  \<^verbatim>\<open>manifest.fileHandlers\<close> and the store.
\<close>

definition ConfigureHandlers ::
  "nat \<Rightarrow> registry \<Rightarrow> File list \<Rightarrow> (error + fhid list \<times> store) option" where
  "ConfigureHandlers fuel reg files =
     (case build_handlers fuel reg files 0 empty_store of
        None \<Rightarrow> None
      | Some (Inl e) \<Rightarrow> Some (Inl e)
      | Some (Inr s1) \<Rightarrow>
          (let s2 = configure_files files 0 s1;
               fileHandlers = rev (sort_key (\<lambda>k. length (ParentHandlers (s2 k)))
                                     [0..<length files])
           in case merge_all fileHandlers s2 of
                Inl err \<Rightarrow> Some (Inl err)
              | Inr s3 \<Rightarrow> Some (Inr (fileHandlers, s3))))"

text \<open>
  \<^verbatim>\<open>WriteOutput\<close> walks \<^verbatim>\<open>manifest.fileHandlers\<close> from the last to the first, skips a
  handler that has parents, and for every other one opens the file, runs the chain and
  writes the result. \<open>io k\<close> is the first error of these steps for handler \<open>k\<close>, if there
  is one; an error ends the walk. The result lists the handlers whose output was written,
  in order, and the error returned.
\<close>

fun WriteOutput_loop ::
  "(fhid \<Rightarrow> error option) \<Rightarrow> store \<Rightarrow> fhid list \<Rightarrow> fhid list \<Rightarrow> fhid list \<times> error option" where
  "WriteOutput_loop io s [] written = (written, None)"
| "WriteOutput_loop io s (fh # fhs) written =
     (if 0 < length (ParentHandlers (s fh)) then WriteOutput_loop io s fhs written
      else (case io fh of
              Some err \<Rightarrow> (written, Some err)
            | None \<Rightarrow> WriteOutput_loop io s fhs (written @ [fh])))"

definition WriteOutput ::
  "(fhid \<Rightarrow> error option) \<Rightarrow> store \<Rightarrow> fhid list \<Rightarrow> fhid list \<times> error option" where
  "WriteOutput io s fileHandlers = WriteOutput_loop io s (rev fileHandlers) []"

section \<open>Output extensions of a chain\<close>

text \<open>The output extensions of the steps of a chain, as a set.\<close>

definition chain_exts :: "Handler list \<Rightarrow> string set" where
  "chain_exts chain = OutputExt ` set chain"

section \<open>Concrete registries, stores and manifests\<close>

text \<open>
  A registry with the one entry \<open>coffee \<rightarrow> js\<close> in Flow mode, and a registry with the one
  entry \<open>x \<rightarrow> y\<close> in Fork mode.
\<close>

definition coffee_registry :: registry where
  "coffee_registry =
     Register ''coffee'' ''js'' (Transformation ''coffee'' ''js'')
       (Some \<lparr>InputMode = InputModeFlow, OutputMode = OutputModeFlow\<rparr>) registeredHandlers_init"

definition fork_registry :: registry where
  "fork_registry =
     Register ''x'' ''y'' (Transformation ''x2y'' ''y'')
       (Some \<lparr>InputMode = InputModeFork, OutputMode = OutputModeFlow\<rparr>) registeredHandlers_init"

text \<open>
  A store in which handler 0, with the two-step chain \<open>[\<rightarrow> b, \<rightarrow> c]\<close>, has been included
  by handler 1, whose chain is \<open>[\<rightarrow> b]\<close>: the state in which \<^verbatim>\<open>MergeWithParents\<close> runs
  on handler 0.
\<close>

definition merge_example :: store where
  "merge_example = empty_store
     (0 := \<lparr>HandlerChain = [Transformation ''a2b'' ''b'', Transformation ''b2c'' ''c''],
            FileSet = [0], ParentHandlers = [1], File = Some 0\<rparr>,
      1 := \<lparr>HandlerChain = [Transformation ''z2b'' ''b''],
            FileSet = [1, 0], ParentHandlers = [], File = Some 1\<rparr>)"

text \<open>A store in which handler 0 lists handler 2, itself and handler 1, in this order.\<close>

definition mode_example :: store where
  "mode_example = empty_store
     (0 := \<lparr>HandlerChain = [Transformation ''coffee'' ''js''],
            FileSet = [2, 0, 1], ParentHandlers = [], File = Some 0\<rparr>)"

text \<open>
  Three manifests of two files each, with no handler registered. In the first a
  \<open>js\<close> file includes a \<open>css\<close> file, and the store after the first loop of
  \<^verbatim>\<open>ConfigureHandlers\<close> is given with it; in the second a \<open>js\<close> file includes another
  \<open>js\<close> file that has no directive; in the third a file names only itself and the other
  file has no directive.
\<close>

definition css_js_files :: "File list" where
  "css_js_files = [\<lparr>Ext = ''css'', Directives = []\<rparr>, \<lparr>Ext = ''js'', Directives = [[0]]\<rparr>]"

definition css_js_store :: store where
  "css_js_store = empty_store
     (0 := \<lparr>HandlerChain = [DefaultHandler ''css''], FileSet = [], ParentHandlers = [],
            File = Some 0\<rparr>,
      1 := \<lparr>HandlerChain = [DefaultHandler ''js''], FileSet = [], ParentHandlers = [],
            File = Some 1\<rparr>)"

definition js_files :: "File list" where
  "js_files = [\<lparr>Ext = ''js'', Directives = []\<rparr>, \<lparr>Ext = ''js'', Directives = [[0]]\<rparr>]"

definition lone_files :: "File list" where
  "lone_files = [\<lparr>Ext = ''js'', Directives = [[0]]\<rparr>, \<lparr>Ext = ''css'', Directives = []\<rparr>]"

text \<open>An \<open>io\<close> in which no step of \<^verbatim>\<open>WriteOutput\<close> fails.\<close>

definition no_io_error :: "fhid \<Rightarrow> error option" where
  "no_io_error k = None"

section \<open>Properties of the FD budget\<close>

lemma shouldOpenFD_cap: "cap (snd (shouldOpenFD n b)) = cap b"
proof (induction n b rule: shouldOpenFD.induct)
  case (1 n b)
  show ?case
  proof (cases "held b < cap b \<and> n - 1 \<noteq> 0")
    case True
    with "1.IH" have "cap (snd (shouldOpenFD (n - 1) (b\<lparr>held := held b + 1\<rparr>))) = cap b"
      by simp
    with True show ?thesis by (subst shouldOpenFD.simps) simp
  next
    case False
    then show ?thesis by (subst shouldOpenFD.simps) auto
  qed
qed

lemma shouldOpenFD_bound:
  "held b \<le> cap b \<Longrightarrow> held (snd (shouldOpenFD n b)) \<le> cap b"
proof (induction n b rule: shouldOpenFD.induct)
  case (1 n b)
  show ?case
  proof (cases "held b < cap b \<and> n - 1 \<noteq> 0")
    case True
    with "1.IH" have "held (snd (shouldOpenFD (n - 1) (b\<lparr>held := held b + 1\<rparr>))) \<le> cap b"
      by simp
    with True show ?thesis by (subst shouldOpenFD.simps) simp
  next
    case False
    with "1.prems" show ?thesis by (subst shouldOpenFD.simps) auto
  qed
qed

lemma fd_step_bound:
  "held b \<le> cap b \<Longrightarrow> fd_step x b = Some b' \<Longrightarrow> held b' \<le> cap b'"
proof (cases x)
  case (TryAcquire n)
  assume "held b \<le> cap b" "fd_step x b = Some b'"
  with TryAcquire show ?thesis
    using shouldOpenFD_bound [of b n] shouldOpenFD_cap [of n b] by auto
next
  case BlockingAcquire
  assume "held b \<le> cap b" "fd_step x b = Some b'"
  with BlockingAcquire show ?thesis by (auto simp: waitFD_def split: if_splits)
next
  case Release
  assume "held b \<le> cap b" "fd_step x b = Some b'"
  with Release show ?thesis by (auto simp: fdClosed_def split: if_splits)
next
  case (SetLimit l)
  assume "held b \<le> cap b" "fd_step x b = Some b'"
  with SetLimit show ?thesis by (auto simp: SetFDLimit_def split: if_splits)
qed

text \<open>
  C1 (as the code behaves). With a pool of capacity 10 in which 9 permits are held, a
  try-acquire of 2 permits claims the last free permit, finds the pool full on the second
  round and returns false: the attempt failed, and the pool now holds 10 permits instead
  of 9. The permit claimed during the failed attempt is not released.
\<close>

theorem shouldOpenFD_failure_keeps_claimed_permits:
  "shouldOpenFD 2 \<lparr>cap = 10, held = 9\<rparr> = (False, \<lparr>cap = 10, held = 10\<rparr>)"
  by (simp add: shouldOpenFD.simps)

text \<open>
  C4 (as the code behaves). A step whose handler declares two required descriptors, run
  against an empty pool of capacity 10: the non-blocking reservation succeeds and claims two
  permits, the handler runs, and the one deferred \<^verbatim>\<open>fdClosed\<close> releases one permit. The step
  ends with one of its permits still held, whatever the handler returned.
\<close>

theorem handlerFn_leaves_permit_held:
  "handlerFn (Some 2) copied \<lparr>cap = 10, held = 0\<rparr> = Some \<lparr>cap = 10, held = 1\<rparr>"
  by (simp add: handlerFn_def shouldOpenFD.simps fdClosed_def)

text \<open>
  C9. Starting from the initial pool, or from any pool that holds no more permits than its
  capacity, every run of completed try-acquires (successful or not), blocking acquires,
  releases and limit changes ends in a pool whose held permits do not exceed its capacity.
  The initial pool has capacity 10, and a pool made by \<^const>\<open>SetFDLimit\<close> has the capacity
  asked for.
\<close>

theorem fd_budget_never_exceeds_capacity:
  "(held b \<le> cap b \<longrightarrow> fd_run ops b = Some b' \<longrightarrow> held b' \<le> cap b')
   \<and> cap fdBucket_init = 10 \<and> held fdBucket_init = 0
   \<and> (0 \<le> l \<longrightarrow> SetFDLimit l = Inr \<lparr>cap = nat l, held = 0\<rparr>)"
proof -
  have "held b \<le> cap b \<Longrightarrow> fd_run ops b = Some b' \<Longrightarrow> held b' \<le> cap b'"
  proof (induction ops arbitrary: b)
    case Nil
    then show ?case by simp
  next
    case (Cons x xs)
    from Cons.prems(2) obtain b1 where s: "fd_step x b = Some b1" and r: "fd_run xs b1 = Some b'"
      by (auto split: option.splits)
    from fd_step_bound [OF Cons.prems(1) s] have "held b1 \<le> cap b1" .
    from Cons.IH [OF this r] show ?case .
  qed
  then show ?thesis by (simp add: fdBucket_init_def SetFDLimit_def)
qed

theorem fd_budget_never_exceeds_capacity_witness:
  "held fdBucket_init \<le> cap fdBucket_init
   \<and> fd_run [TryAcquire 3, BlockingAcquire, Release, TryAcquire 9, SetLimit 2, TryAcquire 5]
        fdBucket_init = Some \<lparr>cap = 2, held = 2\<rparr>
   \<and> held \<lparr>cap = 2, held = 2\<rparr> \<le> cap \<lparr>cap = 2, held = 2\<rparr>
   \<and> SetFDLimit 2 = Inr \<lparr>cap = nat 2, held = 0\<rparr>"
proof -
  have r: "fd_run [TryAcquire 3, BlockingAcquire, Release, TryAcquire 9, SetLimit 2, TryAcquire 5]
        fdBucket_init = Some \<lparr>cap = 2, held = 2\<rparr>"
    by (simp add: fdBucket_init_def shouldOpenFD.simps waitFD_def fdClosed_def SetFDLimit_def)
  have h: "held fdBucket_init \<le> cap fdBucket_init" by (simp add: fdBucket_init_def)
  from fd_budget_never_exceeds_capacity
    [of fdBucket_init "[TryAcquire 3, BlockingAcquire, Release, TryAcquire 9, SetLimit 2, TryAcquire 5]"
        "\<lparr>cap = 2, held = 2\<rparr>" 2] h r
  show ?thesis by simp
qed

section \<open>Properties of the registry and the chain builder\<close>

text \<open>
  C8. \<^const>\<open>Register\<close> stores the handler and options under the pair of extensions,
  replacing what was there, and leaves the entry of every other pair as it was. For an
  extension that has a map of its own, \<^const>\<open>FindHandlers\<close> returns that map, which holds every
  entry registered for the extension; for any other extension it returns what is stored under
  \<open>*\<close>, which is the nil map (no error) when no wildcard was registered. After
  \<^const>\<open>Register\<close>, the map found for the input extension holds the earlier entries and the
  new one.
\<close>

theorem register_and_find:
  "registered (Register inExt outExt handler options reg) inExt outExt
     = Some \<lparr>Handler = handler, Options = options\<rparr>
   \<and> ((i, out) \<noteq> (inExt, outExt) \<longrightarrow>
        registered (Register inExt outExt handler options reg) i out = registered reg i out)
   \<and> (reg e = Some m \<longrightarrow>
        FindHandlers reg e = Some m \<and> (\<forall>out. map_of m out = registered reg e out))
   \<and> (reg e = None \<longrightarrow> FindHandlers reg e = reg ''*'')
   \<and> (reg e = None \<and> reg ''*'' = None \<longrightarrow> FindHandlers reg e = None)
   \<and> (\<exists>m'. FindHandlers (Register inExt outExt handler options reg) inExt = Some m'
         \<and> map_of m' = (\<lambda>out. registered reg inExt out)
                           (outExt \<mapsto> \<lparr>Handler = handler, Options = options\<rparr>))"
  by (auto simp: registered_def Register_def FindHandlers_def update_conv' split: option.splits)

theorem register_and_find_witness:
  "registered (Register ''js'' ''gz'' (Transformation ''gzip'' ''gz'')
        (Some \<lparr>InputMode = InputModeFork, OutputMode = OutputModeFlow\<rparr>) coffee_registry)
      ''coffee'' ''js''
     = Some \<lparr>Handler = Transformation ''coffee'' ''js'',
             Options = Some \<lparr>InputMode = InputModeFlow, OutputMode = OutputModeFlow\<rparr>\<rparr>
   \<and> FindHandlers coffee_registry ''coffee''
     = Some [(''js'', \<lparr>Handler = Transformation ''coffee'' ''js'',
             Options = Some \<lparr>InputMode = InputModeFlow, OutputMode = OutputModeFlow\<rparr>\<rparr>)]
   \<and> coffee_registry ''txt'' = None
   \<and> FindHandlers coffee_registry ''txt'' = None"
proof -
  have c: "coffee_registry ''coffee''
     = Some [(''js'', \<lparr>Handler = Transformation ''coffee'' ''js'',
             Options = Some \<lparr>InputMode = InputModeFlow, OutputMode = OutputModeFlow\<rparr>\<rparr>)]"
    "coffee_registry ''txt'' = None" "coffee_registry ''*'' = None"
    by (simp_all add: coffee_registry_def Register_def registeredHandlers_init_def)
  have r: "registered coffee_registry ''coffee'' ''js''
     = Some \<lparr>Handler = Transformation ''coffee'' ''js'',
             Options = Some \<lparr>InputMode = InputModeFlow, OutputMode = OutputModeFlow\<rparr>\<rparr>"
    by (simp add: registered_def c)
  have ne: "(''coffee'', ''js'') \<noteq> (''js'', ''gz'')" by simp
  from register_and_find [of "''js''" "''gz''" "Transformation ''gzip'' ''gz''"
      "Some \<lparr>InputMode = InputModeFork, OutputMode = OutputModeFlow\<rparr>" coffee_registry
      "''coffee''" "''js''" "''coffee''"
      "[(''js'', \<lparr>Handler = Transformation ''coffee'' ''js'',
             Options = Some \<lparr>InputMode = InputModeFlow, OutputMode = OutputModeFlow\<rparr>\<rparr>)]"]
    ne r c(1)
  have 1: "registered (Register ''js'' ''gz'' (Transformation ''gzip'' ''gz'')
        (Some \<lparr>InputMode = InputModeFork, OutputMode = OutputModeFlow\<rparr>) coffee_registry)
      ''coffee'' ''js''
     = Some \<lparr>Handler = Transformation ''coffee'' ''js'',
             Options = Some \<lparr>InputMode = InputModeFlow, OutputMode = OutputModeFlow\<rparr>\<rparr>"
    and 2: "FindHandlers coffee_registry ''coffee''
     = Some [(''js'', \<lparr>Handler = Transformation ''coffee'' ''js'',
             Options = Some \<lparr>InputMode = InputModeFlow, OutputMode = OutputModeFlow\<rparr>\<rparr>)]"
    by simp_all
  from register_and_find [of "''js''" "''gz''" "Transformation ''gzip'' ''gz''"
      "Some \<lparr>InputMode = InputModeFork, OutputMode = OutputModeFlow\<rparr>" coffee_registry
      "''coffee''" "''js''" "''txt''"] c(2,3)
  have 3: "FindHandlers coffee_registry ''txt'' = None" by simp
  from 1 2 3 c(2) show ?thesis by simp
qed

text \<open>
  C7. For an extension with no map of its own, in a registry with no wildcard map,
  \<^const>\<open>FindHandlers\<close> returns the nil map and a new file handler gets the chain of exactly one
  default handler for that extension, with any fuel but zero; the output extension of that
  handler is the input extension.
\<close>

theorem default_fallback:
  "reg inExt = None \<and> reg ''*'' = None \<longrightarrow>
     FindHandlers reg inExt = None
     \<and> NewFileHandler (Suc fuel) reg inExt
         = Some (Inr \<lparr>HandlerChain = [DefaultHandler inExt], FileSet = [],
                      ParentHandlers = [], File = None\<rparr>)
     \<and> OutputExt (DefaultHandler inExt) = inExt"
  by (simp add: FindHandlers_def NewFileHandler_def)

theorem default_fallback_witness:
  "coffee_registry ''txt'' = None \<and> coffee_registry ''*'' = None
   \<and> FindHandlers coffee_registry ''txt'' = None
   \<and> NewFileHandler 1 coffee_registry ''txt''
         = Some (Inr \<lparr>HandlerChain = [DefaultHandler ''txt''], FileSet = [],
                      ParentHandlers = [], File = None\<rparr>)
   \<and> OutputExt (DefaultHandler ''txt'') = ''txt''"
proof -
  have h: "coffee_registry ''txt'' = None \<and> coffee_registry ''*'' = None"
    by (simp add: coffee_registry_def Register_def registeredHandlers_init_def)
  from default_fallback [of coffee_registry "''txt''" 0] h show ?thesis by simp
qed

lemma FindHandlers_fork_registry:
  "FindHandlers fork_registry ''x'' =
     Some [(''y'', \<lparr>Handler = Transformation ''x2y'' ''y'',
                    Options = Some \<lparr>InputMode = InputModeFork, OutputMode = OutputModeFlow\<rparr>\<rparr>)]"
  by (simp add: fork_registry_def Register_def FindHandlers_def registeredHandlers_init_def)

lemma buildHandlerChain_fork_registry:
  "buildHandlerChain fuel fork_registry ''x'' [] = None"
proof (induction fuel)
  case 0
  show ?case by simp
next
  case (Suc fuel)
  show ?case
  proof (cases fuel)
    case 0
    then show ?thesis by (simp add: FindHandlers_fork_registry)
  next
    case (Suc k)
    with Suc.IH show ?thesis by (simp add: FindHandlers_fork_registry)
  qed
qed

text \<open>
  C2 (as the code behaves). The registry with the single entry \<open>x \<rightarrow> y\<close> in Fork mode has
  an acyclic extension graph. Building the chain for \<open>x\<close> reaches the Fork branch of the
  loop, which calls \<^verbatim>\<open>NewFileHandler(inExt)\<close> with the same extension \<open>x\<close> on a fresh
  handler, which reaches the same branch again: no amount of fuel suffices, the call never
  returns a chain.
\<close>

theorem fork_entry_never_returns:
  "\<forall>fuel. NewFileHandler fuel fork_registry ''x'' = None"
  by (simp add: NewFileHandler_def buildHandlerChain_fork_registry)

section \<open>Properties of the merge engine\<close>

lemma addHandlerAfterIndex_loop_past:
  "index < i \<Longrightarrow> addHandlerAfterIndex_loop handler index i hs = hs"
  by (induction hs arbitrary: i) auto

lemma addHandlerAfterIndex_loop_insert:
  "n < length hs \<Longrightarrow>
   addHandlerAfterIndex_loop handler (i + n) i hs = take (Suc n) hs @ handler # drop (Suc n) hs"
proof (induction hs arbitrary: i n)
  case Nil
  then show ?case by simp
next
  case (Cons h hs)
  show ?case
  proof (cases n)
    case 0
    then show ?thesis by (simp add: addHandlerAfterIndex_loop_past)
  next
    case (Suc m)
    with Cons.prems have "m < length hs" by simp
    from Cons.IH [OF this, of "Suc i"] Suc show ?thesis by simp
  qed
qed

lemma concatenationMode_child_first:
  "parent \<notin> set xs \<Longrightarrow>
   concatenationMode parent child (xs @ child # ys) = ConcatenationModePrepend"
  by (induction xs) auto

lemma concatenationMode_parent_first:
  "child \<noteq> parent \<Longrightarrow> child \<notin> set xs \<Longrightarrow>
   concatenationMode parent child (xs @ parent # ys) = ConcatenationModeAppend"
  by (induction xs) auto

lemma concatenationMode_self:
  "concatenationMode parent parent fs = ConcatenationModePrepend"
  by (induction fs) auto

text \<open>
  C6 (the claim as stated fails). The one way for the child to stand at the position of the
  parent's own entry is to be the parent itself. In the store where handler 0 lists handler 2,
  itself and handler 1, concatenating handler 0 into itself gives the mode Prepend, not
  Append: the loop tests for the child before it tests for the parent.
\<close>

theorem self_as_child_gets_prepend:
  "concatenationMode 0 0 (FileSet (mode_example 0)) = ConcatenationModePrepend
   \<and> concatenationMode 0 0 (FileSet (mode_example 0)) \<noteq> ConcatenationModeAppend
   \<and> (\<exists>s'. concatenateAtIndex 0 0 0 mode_example = Inr s'
         \<and> HandlerChain (s' 0) =
             [Transformation ''coffee'' ''js'',
              ConcatenationHandler 0 0 ConcatenationModePrepend ''js''])"
  by (simp add: mode_example_def concatenateAtIndex_def addHandlerAfterIndex_def Let_def)

text \<open>
  C6 (amended). The mode that \<^verbatim>\<open>concatenateAtIndex\<close> gives the concatenation handler:
  Prepend when the child stands in the parent's \<^verbatim>\<open>FileSet\<close> before any entry for the parent
  itself; Append when an entry for the parent itself stands before any entry for the child,
  the child being another handler than the parent. For the order \<open>[self, child]\<close> the mode
  is Append and for \<open>[child, self]\<close> it is Prepend. The handler inserted behind the step at
  the given index carries that mode. When the child is the parent itself, the mode is Prepend
  whatever the \<^verbatim>\<open>FileSet\<close>.
\<close>

theorem concatenation_mode_by_position:
  "(parent \<notin> set xs \<longrightarrow>
      concatenationMode parent child (xs @ child # ys) = ConcatenationModePrepend)
   \<and> (child \<noteq> parent \<and> child \<notin> set xs \<longrightarrow>
      concatenationMode parent child (xs @ parent # ys) = ConcatenationModeAppend)
   \<and> (child \<noteq> parent \<longrightarrow>
      concatenationMode parent child [parent, child] = ConcatenationModeAppend
      \<and> concatenationMode parent child [child, parent] = ConcatenationModePrepend)
   \<and> (handlerIndex < length (HandlerChain (s parent)) \<longrightarrow>
      (\<exists>s'. concatenateAtIndex parent child handlerIndex s = Inr s'
         \<and> HandlerChain (s' parent) =
             take (Suc handlerIndex) (HandlerChain (s parent))
             @ ConcatenationHandler parent child
                 (concatenationMode parent child (FileSet (s parent)))
                 (OutputExt (HandlerChain (s parent) ! handlerIndex))
             # drop (Suc handlerIndex) (HandlerChain (s parent))))
   \<and> concatenationMode parent parent fs = ConcatenationModePrepend"
proof (intro conjI impI)
  show "concatenationMode parent parent fs = ConcatenationModePrepend"
    by (rule concatenationMode_self)
next
  assume "parent \<notin> set xs"
  then show "concatenationMode parent child (xs @ child # ys) = ConcatenationModePrepend"
    by (rule concatenationMode_child_first)
next
  assume "child \<noteq> parent \<and> child \<notin> set xs"
  then show "concatenationMode parent child (xs @ parent # ys) = ConcatenationModeAppend"
    by (simp add: concatenationMode_parent_first)
next
  assume "child \<noteq> parent"
  then show "concatenationMode parent child [parent, child] = ConcatenationModeAppend"
    by auto
next
  show "concatenationMode parent child [child, parent] = ConcatenationModePrepend"
    by simp
next
  assume lt: "handlerIndex < length (HandlerChain (s parent))"
  from addHandlerAfterIndex_loop_insert [OF lt, of _ 0] lt
  show "\<exists>s'. concatenateAtIndex parent child handlerIndex s = Inr s'
         \<and> HandlerChain (s' parent) =
             take (Suc handlerIndex) (HandlerChain (s parent))
             @ ConcatenationHandler parent child
                 (concatenationMode parent child (FileSet (s parent)))
                 (OutputExt (HandlerChain (s parent) ! handlerIndex))
             # drop (Suc handlerIndex) (HandlerChain (s parent))"
    by (simp add: concatenateAtIndex_def addHandlerAfterIndex_def Let_def)
qed

theorem concatenation_mode_by_position_witness:
  "(0::nat) \<notin> set [2]
   \<and> concatenationMode 0 1 ([2] @ 1 # [0]) = ConcatenationModePrepend
   \<and> (1::nat) \<noteq> 0 \<and> (1::nat) \<notin> set [2]
   \<and> concatenationMode 0 1 ([2] @ 0 # [1]) = ConcatenationModeAppend
   \<and> concatenationMode 0 1 [0, 1] = ConcatenationModeAppend
   \<and> concatenationMode 0 1 [1, 0] = ConcatenationModePrepend
   \<and> (0::nat) < length (HandlerChain (mode_example 0))
   \<and> (\<exists>s'. concatenateAtIndex 0 1 0 mode_example = Inr s'
         \<and> HandlerChain (s' 0) =
             [Transformation ''coffee'' ''js'',
              ConcatenationHandler 0 1 ConcatenationModeAppend ''js''])"
proof -
  have h: "(0::nat) \<notin> set [2]" "(1::nat) \<noteq> 0" "(1::nat) \<notin> set [2]"
    "(0::nat) < length (HandlerChain (mode_example 0))"
    by (simp_all add: mode_example_def)
  have c: "HandlerChain (mode_example 0) = [Transformation ''coffee'' ''js'']"
    "FileSet (mode_example 0) = [2, 0, 1]"
    by (simp_all add: mode_example_def)
  from concatenation_mode_by_position [of 0 "[2]" 1 "[0]" 0 mode_example] h
  have "concatenationMode 0 1 ([2] @ 1 # [0]) = ConcatenationModePrepend
      \<and> concatenationMode 0 1 [0, 1] = ConcatenationModeAppend
      \<and> concatenationMode 0 1 [1, 0] = ConcatenationModePrepend
      \<and> (\<exists>s'. concatenateAtIndex 0 1 0 mode_example = Inr s'
         \<and> HandlerChain (s' 0) =
             [Transformation ''coffee'' ''js'',
              ConcatenationHandler 0 1 ConcatenationModeAppend ''js''])"
    by (simp add: c)
  moreover from concatenation_mode_by_position [of 0 "[2]" 1 "[1]" 0 mode_example] h
  have "concatenationMode 0 1 ([2] @ 0 # [1]) = ConcatenationModeAppend"
    by simp
  ultimately show ?thesis using h by simp
qed

lemma scan_b_None: "scan_b ext b n = None \<longleftrightarrow> (\<forall>j<n. ext \<noteq> OutputExt (b ! j))"
  by (induction n) (auto simp: less_Suc_eq)

lemma scan_b_Some: "scan_b ext b n = Some j \<Longrightarrow> j < n \<and> OutputExt (b ! j) = ext"
  by (induction n) (auto split: if_splits)

lemma scan_a_None:
  "scan_a a b n = None \<longleftrightarrow> (\<forall>i<n. \<forall>j<length b. OutputExt (a ! i) \<noteq> OutputExt (b ! j))"
proof (induction n)
  case 0
  show ?case by simp
next
  case (Suc n)
  show ?case
  proof (cases "scan_b (OutputExt (a ! n)) b (length b)")
    case None
    then have "\<forall>j<length b. OutputExt (a ! n) \<noteq> OutputExt (b ! j)"
      by (simp add: scan_b_None)
    with None Suc.IH show ?thesis by (auto simp: less_Suc_eq)
  next
    case (Some j)
    from scan_b_Some [OF Some] have "j < length b" "OutputExt (b ! j) = OutputExt (a ! n)"
      by simp_all
    then have "\<not> (\<forall>i<Suc n. \<forall>j<length b. OutputExt (a ! i) \<noteq> OutputExt (b ! j))"
      by (metis lessI)
    with Some show ?thesis by simp
  qed
qed

lemma scan_a_Some:
  "scan_a a b n = Some (i, j) \<Longrightarrow>
     i < n \<and> j < length b \<and> OutputExt (b ! j) = OutputExt (a ! i)"
  by (induction n) (auto split: option.splits dest: scan_b_Some)

lemma removeIncompatibleHandlers_Inl:
  "chain_exts a \<inter> chain_exts b = {} \<Longrightarrow>
   removeIncompatibleHandlers a b = Inl (IncompatibleChains a b)"
proof -
  assume d: "chain_exts a \<inter> chain_exts b = {}"
  have "scan_a a b (length a) = None"
  proof (subst scan_a_None, intro allI impI)
    fix i j assume "i < length a" "j < length b"
    then have "OutputExt (a ! i) \<in> chain_exts a" "OutputExt (b ! j) \<in> chain_exts b"
      by (auto simp: chain_exts_def)
    with d show "OutputExt (a ! i) \<noteq> OutputExt (b ! j)" by auto
  qed
  then show ?thesis by (simp add: removeIncompatibleHandlers_def)
qed

lemma removeIncompatibleHandlers_Inr:
  "removeIncompatibleHandlers a b = Inr j \<Longrightarrow> j < length b \<and> OutputExt (b ! j) \<in> chain_exts a"
  by (auto simp: removeIncompatibleHandlers_def chain_exts_def
           split: option.splits dest!: scan_a_Some)

lemma removeIncompatibleHandlers_error:
  "removeIncompatibleHandlers a b = Inl e \<Longrightarrow> e = IncompatibleChains a b"
  by (auto simp: removeIncompatibleHandlers_def split: option.splits)

lemma set_addHandlerAfterIndex_loop:
  "set (addHandlerAfterIndex_loop handler index i hs) \<subseteq> insert handler (set hs)
   \<and> set hs \<subseteq> set (addHandlerAfterIndex_loop handler index i hs)"
  by (induction hs arbitrary: i) auto

lemma chain_exts_addHandlerAfterIndex_loop:
  "OutputExt handler \<in> chain_exts hs \<Longrightarrow>
   chain_exts (addHandlerAfterIndex_loop handler index i hs) = chain_exts hs"
  using set_addHandlerAfterIndex_loop [of handler index i hs]
  by (auto simp: chain_exts_def)

lemma concatenateAtIndex_Inr:
  "handlerIndex < length (HandlerChain (s parent)) \<Longrightarrow>
   \<exists>s'. concatenateAtIndex parent child handlerIndex s = Inr s'
     \<and> (\<forall>k. chain_exts (HandlerChain (s' k)) = chain_exts (HandlerChain (s k))
          \<and> ParentHandlers (s' k) = ParentHandlers (s k)
          \<and> FileSet (s' k) = FileSet (s k))
     \<and> (\<forall>k. k \<noteq> parent \<longrightarrow> s' k = s k)"
proof -
  assume lt: "handlerIndex < length (HandlerChain (s parent))"
  let ?ch = "HandlerChain (s parent)"
  let ?h = "ConcatenationHandler parent child
              (concatenationMode parent child (FileSet (s parent)))
              (OutputExt (?ch ! handlerIndex))"
  from lt have "OutputExt ?h \<in> chain_exts ?ch"
    by (auto simp: chain_exts_def)
  then have "chain_exts (addHandlerAfterIndex_loop ?h handlerIndex 0 ?ch) = chain_exts ?ch"
    by (rule chain_exts_addHandlerAfterIndex_loop)
  with lt show ?thesis
    by (simp add: concatenateAtIndex_def addHandlerAfterIndex_def Let_def)
qed


lemma merge_parents_Inr:
  "merge_parents c ps s = Inr s' \<Longrightarrow>
     chain_exts (HandlerChain (s' k)) = chain_exts (HandlerChain (s k))
     \<and> ParentHandlers (s' k) = ParentHandlers (s k)
     \<and> FileSet (s' k) = FileSet (s k)"
proof (induction ps arbitrary: s)
  case Nil
  then show ?case by simp
next
  case (Cons p ps)
  from Cons.prems obtain j where
    j: "removeIncompatibleHandlers (HandlerChain (s c)) (HandlerChain (s p)) = Inr j"
    by (auto split: sum.splits)
  from removeIncompatibleHandlers_Inr [OF j] have "j < length (HandlerChain (s p))" by simp
  from concatenateAtIndex_Inr [where handlerIndex = j and s = s and parent = p and child = c, OF this]
  obtain s1 where
    s1: "concatenateAtIndex p c j s = Inr s1" and
    inv: "\<forall>k. chain_exts (HandlerChain (s1 k)) = chain_exts (HandlerChain (s k))
          \<and> ParentHandlers (s1 k) = ParentHandlers (s k)
          \<and> FileSet (s1 k) = FileSet (s k)"
    by blast
  from Cons.prems j s1 have "merge_parents c ps s1 = Inr s'" by simp
  from Cons.IH [OF this] inv show ?case by simp
qed

lemma merge_parents_incompatible:
  "p \<in> set ps \<Longrightarrow>
   chain_exts (HandlerChain (s c)) \<inter> chain_exts (HandlerChain (s p)) = {} \<Longrightarrow>
   \<exists>a b. merge_parents c ps s = Inl (IncompatibleChains a b)"
proof (induction ps arbitrary: s)
  case Nil
  then show ?case by simp
next
  case (Cons q ps)
  show ?case
  proof (cases "removeIncompatibleHandlers (HandlerChain (s c)) (HandlerChain (s q))")
    case (Inl e)
    with removeIncompatibleHandlers_error [OF Inl] show ?thesis by simp
  next
    case (Inr j)
    from removeIncompatibleHandlers_Inr [OF Inr] have
      lt: "j < length (HandlerChain (s q))" and
      mem: "OutputExt (HandlerChain (s q) ! j) \<in> chain_exts (HandlerChain (s c))"
      by simp_all
    from lt have "OutputExt (HandlerChain (s q) ! j) \<in> chain_exts (HandlerChain (s q))"
      by (simp add: chain_exts_def)
    with mem Cons.prems(2) have "p \<noteq> q" by auto
    with Cons.prems(1) have p: "p \<in> set ps" by simp
    from concatenateAtIndex_Inr [where handlerIndex = j and s = s and parent = q and child = c, OF lt]
    obtain s1 where
      s1: "concatenateAtIndex q c j s = Inr s1" and
      inv: "\<forall>k. chain_exts (HandlerChain (s1 k)) = chain_exts (HandlerChain (s k))
            \<and> ParentHandlers (s1 k) = ParentHandlers (s k)
            \<and> FileSet (s1 k) = FileSet (s k)"
      by blast
    from inv Cons.prems(2) have
      "chain_exts (HandlerChain (s1 c)) \<inter> chain_exts (HandlerChain (s1 p)) = {}" by simp
    from Cons.IH [OF p this] Inr s1 show ?thesis by simp
  qed
qed

lemma merge_parents_error:
  "merge_parents c ps s = Inl e \<Longrightarrow> \<exists>a b. e = IncompatibleChains a b"
proof (induction ps arbitrary: s)
  case Nil
  then show ?case by simp
next
  case (Cons q ps)
  show ?case
  proof (cases "removeIncompatibleHandlers (HandlerChain (s c)) (HandlerChain (s q))")
    case (Inl e')
    with Cons.prems have "e = e'" by simp
    with removeIncompatibleHandlers_error [OF Inl] show ?thesis by blast
  next
    case (Inr j)
    from removeIncompatibleHandlers_Inr [OF Inr] have lt: "j < length (HandlerChain (s q))"
      by simp
    from concatenateAtIndex_Inr [where handlerIndex = j and s = s and parent = q and child = c, OF lt]
    obtain s1 where s1: "concatenateAtIndex q c j s = Inr s1" by blast
    with Cons.prems Inr have "merge_parents c ps s1 = Inl e" by simp
    from Cons.IH [OF this] show ?thesis .
  qed
qed

lemma MergeWithParents_error:
  "MergeWithParents c s = Inl e \<Longrightarrow> \<exists>a b. e = IncompatibleChains a b"
  unfolding MergeWithParents_def Let_def by (rule merge_parents_error)

lemma MergeWithParents_Inr:
  "MergeWithParents c s = Inr s' \<Longrightarrow>
     chain_exts (HandlerChain (s' k)) = chain_exts (HandlerChain (s k))
     \<and> set (ParentHandlers (s' k)) = set (ParentHandlers (s k))
     \<and> FileSet (s' k) = FileSet (s k)"
proof -
  assume m: "MergeWithParents c s = Inr s'"
  let ?sorted = "sort_key (\<lambda>p. length (HandlerChain (s p))) (ParentHandlers (s c))"
  let ?s1 = "s(c := (s c)\<lparr>ParentHandlers := ?sorted\<rparr>)"
  from m have "merge_parents c ?sorted ?s1 = Inr s'"
    by (simp add: MergeWithParents_def Let_def)
  from merge_parents_Inr [OF this, of k] show ?thesis by simp
qed

lemma MergeWithParents_incompatible:
  assumes "p \<in> set (ParentHandlers (s c))"
    and "chain_exts (HandlerChain (s c)) \<inter> chain_exts (HandlerChain (s p)) = {}"
  shows "\<exists>a b. MergeWithParents c s = Inl (IncompatibleChains a b)"
proof -
  let ?sorted = "sort_key (\<lambda>p. length (HandlerChain (s p))) (ParentHandlers (s c))"
  let ?s1 = "s(c := (s c)\<lparr>ParentHandlers := ?sorted\<rparr>)"
  from assms(1) have p: "p \<in> set ?sorted" by simp
  from assms(2) have
    "chain_exts (HandlerChain (?s1 c)) \<inter> chain_exts (HandlerChain (?s1 p)) = {}" by auto
  from merge_parents_incompatible [OF p this] show ?thesis
    unfolding MergeWithParents_def Let_def .
qed

lemma merge_all_Inr:
  "merge_all fhs s = Inr s' \<Longrightarrow>
     chain_exts (HandlerChain (s' k)) = chain_exts (HandlerChain (s k))
     \<and> set (ParentHandlers (s' k)) = set (ParentHandlers (s k))
     \<and> FileSet (s' k) = FileSet (s k)"
proof (induction fhs arbitrary: s)
  case Nil
  then show ?case by simp
next
  case (Cons c fhs)
  from Cons.prems obtain s1 where
    s1: "MergeWithParents c s = Inr s1" and r: "merge_all fhs s1 = Inr s'"
    by (auto split: sum.splits)
  from Cons.IH [OF r] MergeWithParents_Inr [OF s1, of k] show ?case by simp
qed

lemma merge_all_incompatible:
  "c \<in> set fhs \<Longrightarrow> p \<in> set (ParentHandlers (s c)) \<Longrightarrow>
   chain_exts (HandlerChain (s c)) \<inter> chain_exts (HandlerChain (s p)) = {} \<Longrightarrow>
   \<exists>a b. merge_all fhs s = Inl (IncompatibleChains a b)"
proof (induction fhs arbitrary: s)
  case Nil
  then show ?case by simp
next
  case (Cons d fhs)
  show ?case
  proof (cases "MergeWithParents d s")
    case (Inl e)
    show ?thesis
    proof (cases "d = c")
      case True
      with MergeWithParents_incompatible [OF Cons.prems(2,3)] show ?thesis by auto
    next
      case False
      from MergeWithParents_error [OF Inl] Inl show ?thesis by auto
    qed
  next
    case (Inr s1)
    from MergeWithParents_incompatible [OF Cons.prems(2,3)] Inr have "d \<noteq> c" by auto
    with Cons.prems(1) have c: "c \<in> set fhs" by simp
    from MergeWithParents_Inr [OF Inr] Cons.prems(2,3) have
      "p \<in> set (ParentHandlers (s1 c))"
      "chain_exts (HandlerChain (s1 c)) \<inter> chain_exts (HandlerChain (s1 p)) = {}"
      by simp_all
    from Cons.IH [OF c this] Inr show ?thesis by simp
  qed
qed

lemmas eval_defs = ConfigureHandlers_def NewFileHandler_def FindHandlers_def
  registeredHandlers_init_def empty_store_def configure_file_def AddFileHandler_def
  AddParentFileHandler_def MergeWithParents_def removeIncompatibleHandlers_def
  concatenateAtIndex_def addHandlerAfterIndex_def WriteOutput_def Let_def

text \<open>
  C3 (as the code behaves). Handler 0 with chain \<open>[\<rightarrow> b, \<rightarrow> c]\<close> is merged into its
  parent, handler 1 with chain \<open>[\<rightarrow> b]\<close>. The scan finds the pair of steps with output
  extension \<open>b\<close> and returns index 0 of the parent's chain, and the concatenation handler is
  inserted there. The chain of handler 0 still has both steps afterwards: the step behind the
  matching one has not been discarded. (The slice that the function's own variable \<^verbatim>\<open>a\<close> is
  bound to at the return is empty: \<^verbatim>\<open>a[0:i]\<close> ends before the matching step.)
\<close>

theorem merge_leaves_child_chain_untruncated:
  "\<exists>s. MergeWithParents 0 merge_example = Inr s
     \<and> removeIncompatibleHandlers (HandlerChain (merge_example 0)) (HandlerChain (merge_example 1)) = Inr 0
     \<and> removeIncompatibleHandlers_a (HandlerChain (merge_example 0)) (HandlerChain (merge_example 1)) = []
     \<and> HandlerChain (s 0) = [Transformation ''a2b'' ''b'', Transformation ''b2c'' ''c'']
     \<and> HandlerChain (s 1) = [Transformation ''z2b'' ''b'',
          ConcatenationHandler 1 0 ConcatenationModeAppend ''b'']"
  by (simp add: merge_example_def removeIncompatibleHandlers_a_def eval_defs)

section \<open>Properties of the orchestrator\<close>

lemma AddFileHandler_fields:
  "HandlerChain (AddFileHandler self f s x) = HandlerChain (s x)"
  "ParentHandlers (AddFileHandler self f s x) =
     (if x = f \<and> f \<noteq> self then ParentHandlers (s x) @ [self] else ParentHandlers (s x))"
  "FileSet (AddFileHandler self f s x) = (if x = self then FileSet (s x) @ [f] else FileSet (s x))"
  by (simp_all add: AddFileHandler_def AddParentFileHandler_def Let_def)

lemma add_directive_files_fields:
  "HandlerChain (snd (add_directive_files self fs b s) x) = HandlerChain (s x)"
  "set (ParentHandlers (snd (add_directive_files self fs b s) x)) =
     set (ParentHandlers (s x)) \<union> (if x \<in> set fs \<and> x \<noteq> self then {self} else {})"
  by (induction fs arbitrary: b s) (auto simp: AddFileHandler_fields)

lemma configure_file_fields:
  "HandlerChain (configure_file self file s x) = HandlerChain (s x)"
  "set (ParentHandlers (configure_file self file s x)) =
     set (ParentHandlers (s x))
       \<union> (if x \<in> set (concat (Directives file)) \<and> x \<noteq> self then {self} else {})"
proof -
  obtain b s1 where r: "add_directive_files self (concat (Directives file)) False s = (b, s1)"
    by (cases "add_directive_files self (concat (Directives file)) False s")
  then have s1: "s1 = snd (add_directive_files self (concat (Directives file)) False s)"
    by simp
  have c: "configure_file self file s = (if \<not> b then AddFileHandler self self s1 else s1)"
    by (simp add: configure_file_def r)
  show "HandlerChain (configure_file self file s x) = HandlerChain (s x)"
    unfolding c by (simp add: AddFileHandler_fields s1 add_directive_files_fields)
  show "set (ParentHandlers (configure_file self file s x)) =
     set (ParentHandlers (s x))
       \<union> (if x \<in> set (concat (Directives file)) \<and> x \<noteq> self then {self} else {})"
    unfolding c by (simp add: AddFileHandler_fields s1 add_directive_files_fields)
qed

lemma configure_files_chain:
  "HandlerChain (configure_files files k s x) = HandlerChain (s x)"
  by (induction files arbitrary: k s) (simp_all add: configure_file_fields)

lemma configure_files_parents:
  "set (ParentHandlers (configure_files files k s x)) =
     set (ParentHandlers (s x))
       \<union> {k + i | i. i < length files \<and> x \<in> set (concat (Directives (files ! i))) \<and> x \<noteq> k + i}"
proof (induction files arbitrary: k s)
  case Nil
  show ?case by simp
next
  case (Cons fl files)
  have split: "{k + i | i. i < length (fl # files)
                  \<and> x \<in> set (concat (Directives ((fl # files) ! i))) \<and> x \<noteq> k + i}
     = (if x \<in> set (concat (Directives fl)) \<and> x \<noteq> k then {k} else {})
       \<union> {Suc k + i | i. i < length files
                  \<and> x \<in> set (concat (Directives (files ! i))) \<and> x \<noteq> Suc k + i}"
    (is "?L = ?R")
  proof (intro set_eqI iffI)
    fix y assume "y \<in> ?L"
    then obtain i where i: "y = k + i" "i < length (fl # files)"
      "x \<in> set (concat (Directives ((fl # files) ! i)))" "x \<noteq> k + i" by blast
    show "y \<in> ?R"
    proof (cases i)
      case 0
      with i show ?thesis by simp
    next
      case (Suc j)
      with i have "y = Suc k + j" "j < length files"
        "x \<in> set (concat (Directives (files ! j)))" "x \<noteq> Suc k + j" by simp_all
      then show ?thesis by blast
    qed
  next
    fix y assume "y \<in> ?R"
    then consider "y = k" "x \<in> set (concat (Directives fl))" "x \<noteq> k"
      | j where "y = Suc k + j" "j < length files"
          "x \<in> set (concat (Directives (files ! j)))" "x \<noteq> Suc k + j"
      by (auto split: if_splits)
    then show "y \<in> ?L"
    proof cases
      case 1
      then have "y = k + 0 \<and> 0 < length (fl # files)
          \<and> x \<in> set (concat (Directives ((fl # files) ! 0))) \<and> x \<noteq> k + 0" by simp
      then show ?thesis by blast
    next
      case 2
      then have "y = k + Suc j \<and> Suc j < length (fl # files)
          \<and> x \<in> set (concat (Directives ((fl # files) ! Suc j))) \<and> x \<noteq> k + Suc j" by simp
      then show ?thesis by blast
    qed
  qed
  show ?case
    unfolding split by (simp add: Cons.IH configure_file_fields Un_assoc)
qed

lemma build_handlers_outside:
  "build_handlers fuel reg files k s = Some (Inr s1) \<Longrightarrow> x < k \<Longrightarrow> s1 x = s x"
proof (induction files arbitrary: k s)
  case Nil
  then show ?case by simp
next
  case (Cons fl files)
  from Cons.prems(1) obtain fh where
    r: "build_handlers fuel reg files (Suc k) (s(k := fh\<lparr>File := Some k\<rparr>)) = Some (Inr s1)"
    by (auto split: option.splits sum.splits)
  from Cons.IH [OF r] Cons.prems(2) show ?case by simp
qed

lemma build_handlers_fresh:
  "build_handlers fuel reg files k s = Some (Inr s1) \<Longrightarrow> i < length files \<Longrightarrow>
   \<exists>chain. buildHandlerChain fuel reg (Ext (files ! i)) [] = Some (Inr chain)
     \<and> s1 (k + i) = \<lparr>HandlerChain = chain, FileSet = [], ParentHandlers = [], File = Some (k + i)\<rparr>"
proof (induction files arbitrary: k s i)
  case Nil
  then show ?case by simp
next
  case (Cons fl files)
  from Cons.prems(1) obtain fh where
    fh: "NewFileHandler fuel reg (Ext fl) = Some (Inr fh)" and
    r: "build_handlers fuel reg files (Suc k) (s(k := fh\<lparr>File := Some k\<rparr>)) = Some (Inr s1)"
    by (auto split: option.splits sum.splits)
  show ?case
  proof (cases i)
    case 0
    from fh obtain chain where
      c: "buildHandlerChain fuel reg (Ext fl) [] = Some (Inr chain)" and
      f: "fh = \<lparr>HandlerChain = chain, FileSet = [], ParentHandlers = [], File = None\<rparr>"
      by (auto simp: NewFileHandler_def split: option.splits sum.splits)
    from build_handlers_outside [OF r, of k] have "s1 k = fh\<lparr>File := Some k\<rparr>" by simp
    with 0 c f show ?thesis by simp
  next
    case (Suc j)
    with Cons.prems(2) have "j < length files" by simp
    from Cons.IH [OF r this] Suc show ?thesis by simp
  qed
qed

lemma WriteOutput_loop_written:
  "\<forall>k. io k = None \<Longrightarrow>
   set (fst (WriteOutput_loop io s fhs written)) =
     set written \<union> {k \<in> set fhs. ParentHandlers (s k) = []}"
  by (induction fhs arbitrary: written) auto

lemma css_js_build:
  "build_handlers 1 registeredHandlers_init css_js_files 0 empty_store = Some (Inr css_js_store)"
  by (simp add: css_js_files_def css_js_store_def NewFileHandler_def FindHandlers_def
        registeredHandlers_init_def)

lemma ConfigureHandlers_incompatible:
  assumes b: "build_handlers fuel reg files 0 empty_store = Some (Inr s1)"
    and p: "p < length files" and c: "c < length files" and ne: "c \<noteq> p"
    and d: "c \<in> set (concat (Directives (files ! p)))"
    and e: "chain_exts (HandlerChain (s1 c)) \<inter> chain_exts (HandlerChain (s1 p)) = {}"
  shows "\<exists>a' b'. ConfigureHandlers fuel reg files = Some (Inl (IncompatibleChains a' b'))"
proof -
  define s2 where "s2 = configure_files files 0 s1"
  define fhs where "fhs = rev (sort_key (\<lambda>k. length (ParentHandlers (s2 k))) [0..<length files])"
  from p d ne have "\<exists>i. p = 0 + i \<and> i < length files
       \<and> c \<in> set (concat (Directives (files ! i))) \<and> c \<noteq> 0 + i"
    by simp
  then have "p \<in> {0 + i | i. i < length files
       \<and> c \<in> set (concat (Directives (files ! i))) \<and> c \<noteq> 0 + i}"
    by (rule CollectI)
  then have par: "p \<in> set (ParentHandlers (s2 c))"
    unfolding s2_def configure_files_parents by (rule UnI2)
  from e have ext: "chain_exts (HandlerChain (s2 c)) \<inter> chain_exts (HandlerChain (s2 p)) = {}"
    by (simp add: s2_def configure_files_chain)
  from c have mem: "c \<in> set fhs" by (simp add: fhs_def)
  from merge_all_incompatible [OF mem par ext] obtain a' b' where
    m: "merge_all fhs s2 = Inl (IncompatibleChains a' b')" by blast
  have "ConfigureHandlers fuel reg files =
     (case merge_all fhs s2 of Inl err \<Rightarrow> Some (Inl err) | Inr s3 \<Rightarrow> Some (Inr (fhs, s3)))"
    unfolding ConfigureHandlers_def s2_def fhs_def Let_def b by simp
  with m have "ConfigureHandlers fuel reg files = Some (Inl (IncompatibleChains a' b'))"
    by simp
  then show ?thesis by blast
qed

text \<open>
  C5. When no step of \<open>a\<close> has the output extension of a step of \<open>b\<close>,
  \<^const>\<open>removeIncompatibleHandlers\<close> returns the error that names both chains. When a handler
  has such a parent among its \<^verbatim>\<open>ParentHandlers\<close>, \<^const>\<open>MergeWithParents\<close> returns an
  error of this kind, whatever the other parents are. When, in a manifest whose chains have
  been built, a file names among its directive files another file whose chain shares no output
  extension with its own, \<^const>\<open>ConfigureHandlers\<close> returns an error of this kind: the
  child is not dropped, and the configuration, which runs no chain and writes no output, ends
  with the error.
\<close>

theorem incompatible_chains_abort_configuration:
  "(chain_exts a \<inter> chain_exts b = {} \<longrightarrow>
      removeIncompatibleHandlers a b = Inl (IncompatibleChains a b))
   \<and> (p \<in> set (ParentHandlers (s c))
        \<and> chain_exts (HandlerChain (s c)) \<inter> chain_exts (HandlerChain (s p)) = {} \<longrightarrow>
      (\<exists>a' b'. MergeWithParents c s = Inl (IncompatibleChains a' b')))
   \<and> (build_handlers fuel reg files 0 empty_store = Some (Inr s1)
        \<and> p' < length files \<and> c' < length files \<and> c' \<noteq> p'
        \<and> c' \<in> set (concat (Directives (files ! p')))
        \<and> chain_exts (HandlerChain (s1 c')) \<inter> chain_exts (HandlerChain (s1 p')) = {} \<longrightarrow>
      (\<exists>a' b'. ConfigureHandlers fuel reg files = Some (Inl (IncompatibleChains a' b'))))"
proof (intro conjI impI)
  assume "chain_exts a \<inter> chain_exts b = {}"
  then show "removeIncompatibleHandlers a b = Inl (IncompatibleChains a b)"
    by (rule removeIncompatibleHandlers_Inl)
next
  assume h: "p \<in> set (ParentHandlers (s c))
        \<and> chain_exts (HandlerChain (s c)) \<inter> chain_exts (HandlerChain (s p)) = {}"
  from h have 1: "p \<in> set (ParentHandlers (s c))" by (rule conjunct1)
  from h have 2: "chain_exts (HandlerChain (s c)) \<inter> chain_exts (HandlerChain (s p)) = {}"
    by (rule conjunct2)
  from 1 2 show "\<exists>a' b'. MergeWithParents c s = Inl (IncompatibleChains a' b')"
    by (rule MergeWithParents_incompatible)
next
  assume h: "build_handlers fuel reg files 0 empty_store = Some (Inr s1)
        \<and> p' < length files \<and> c' < length files \<and> c' \<noteq> p'
        \<and> c' \<in> set (concat (Directives (files ! p')))
        \<and> chain_exts (HandlerChain (s1 c')) \<inter> chain_exts (HandlerChain (s1 p')) = {}"
  then have "build_handlers fuel reg files 0 empty_store = Some (Inr s1)"
    "p' < length files" "c' < length files" "c' \<noteq> p'"
    "c' \<in> set (concat (Directives (files ! p')))"
    "chain_exts (HandlerChain (s1 c')) \<inter> chain_exts (HandlerChain (s1 p')) = {}"
    by blast+
  then show "\<exists>a' b'. ConfigureHandlers fuel reg files = Some (Inl (IncompatibleChains a' b'))"
    by (rule ConfigureHandlers_incompatible)
qed

theorem incompatible_chains_abort_configuration_witness:
  "chain_exts [DefaultHandler ''css''] \<inter> chain_exts [DefaultHandler ''js''] = {}
   \<and> removeIncompatibleHandlers [DefaultHandler ''css''] [DefaultHandler ''js'']
       = Inl (IncompatibleChains [DefaultHandler ''css''] [DefaultHandler ''js''])
   \<and> 1 \<in> set (ParentHandlers (configure_files css_js_files 0 css_js_store 0))
   \<and> (\<exists>a' b'. MergeWithParents 0 (configure_files css_js_files 0 css_js_store)
                 = Inl (IncompatibleChains a' b'))
   \<and> build_handlers 1 registeredHandlers_init css_js_files 0 empty_store = Some (Inr css_js_store)
   \<and> 0 \<in> set (concat (Directives (css_js_files ! 1)))
   \<and> (\<exists>a' b'. ConfigureHandlers 1 registeredHandlers_init css_js_files
                 = Some (Inl (IncompatibleChains a' b')))"
proof -
  have e: "chain_exts [DefaultHandler ''css''] \<inter> chain_exts [DefaultHandler ''js''] = {}"
    by (simp add: chain_exts_def)
  have s0: "configure_files css_js_files 0 css_js_store 0
      = \<lparr>HandlerChain = [DefaultHandler ''css''], FileSet = [0], ParentHandlers = [1],
            File = Some 0\<rparr>"
    by (simp add: css_js_files_def css_js_store_def configure_file_def AddFileHandler_def
          AddParentFileHandler_def Let_def)
  have s1: "HandlerChain (configure_files css_js_files 0 css_js_store 1) = [DefaultHandler ''js'']"
    by (simp add: configure_files_chain css_js_store_def)
  have d: "0 \<in> set (concat (Directives (css_js_files ! 1)))"
    by (simp add: css_js_files_def)
  have l: "(1::nat) < length css_js_files" "(0::nat) < length css_js_files"
    by (simp_all add: css_js_files_def)
  have c: "HandlerChain (css_js_store 0) = [DefaultHandler ''css'']"
    "HandlerChain (css_js_store 1) = [DefaultHandler ''js'']"
    by (simp_all add: css_js_store_def)
  note t = incompatible_chains_abort_configuration
    [of "[DefaultHandler ''css'']" "[DefaultHandler ''js'']" 1
        "configure_files css_js_files 0 css_js_store" 0
        1 registeredHandlers_init css_js_files css_js_store 1 0]
  from t e have 1: "removeIncompatibleHandlers [DefaultHandler ''css''] [DefaultHandler ''js'']
       = Inl (IncompatibleChains [DefaultHandler ''css''] [DefaultHandler ''js''])"
    by blast
  have p: "1 \<in> set (ParentHandlers (configure_files css_js_files 0 css_js_store 0))"
    by (simp add: s0)
  have e2: "chain_exts (HandlerChain (configure_files css_js_files 0 css_js_store 0))
      \<inter> chain_exts (HandlerChain (configure_files css_js_files 0 css_js_store 1)) = {}"
  proof -
    have "HandlerChain (configure_files css_js_files 0 css_js_store 0) = [DefaultHandler ''css'']"
      by (simp add: s0)
    with s1 e show ?thesis by (simp only:)
  qed
  from t p e2 have 2: "\<exists>a' b'. MergeWithParents 0 (configure_files css_js_files 0 css_js_store)
                 = Inl (IncompatibleChains a' b')"
    by blast
  have e3: "chain_exts (HandlerChain (css_js_store 0)) \<inter> chain_exts (HandlerChain (css_js_store 1)) = {}"
    using e by (simp only: c)
  have ne: "(0::nat) \<noteq> 1" by simp
  from t css_js_build l ne d e3 have 3: "\<exists>a' b'. ConfigureHandlers 1 registeredHandlers_init css_js_files
                 = Some (Inl (IncompatibleChains a' b'))"
    by blast
  from e 1 p 2 css_js_build d 3 show ?thesis by blast
qed

lemma ConfigureHandlers_Inr:
  assumes "ConfigureHandlers fuel reg files = Some (Inr (fhs, s'))"
  shows "\<exists>s1. build_handlers fuel reg files 0 empty_store = Some (Inr s1)
           \<and> merge_all fhs (configure_files files 0 s1) = Inr s'
           \<and> set fhs = {0..<length files}"
proof -
  from assms obtain s1 where b: "build_handlers fuel reg files 0 empty_store = Some (Inr s1)"
    unfolding ConfigureHandlers_def by (auto split: option.splits sum.splits)
  define s2 where "s2 = configure_files files 0 s1"
  define l where "l = rev (sort_key (\<lambda>k. length (ParentHandlers (s2 k))) [0..<length files])"
  have "ConfigureHandlers fuel reg files =
     (case merge_all l s2 of Inl err \<Rightarrow> Some (Inl err) | Inr s3 \<Rightarrow> Some (Inr (l, s3)))"
    unfolding ConfigureHandlers_def s2_def l_def Let_def b by simp
  with assms have "merge_all l s2 = Inr s'" "fhs = l"
    by (auto split: sum.splits)
  moreover have "set l = {0..<length files}" by (simp add: l_def)
  ultimately show ?thesis using b by (simp add: s2_def)
qed

lemma ConfigureHandlers_root:
  assumes c: "ConfigureHandlers fuel reg files = Some (Inr (fhs, s'))"
    and x: "x < length files"
    and n: "\<forall>j<length files. j \<noteq> x \<longrightarrow> x \<notin> set (concat (Directives (files ! j)))"
  shows "ParentHandlers (s' x) = [] \<and> x \<in> set fhs"
proof -
  from ConfigureHandlers_Inr [OF c] obtain s1 where
    b: "build_handlers fuel reg files 0 empty_store = Some (Inr s1)" and
    m: "merge_all fhs (configure_files files 0 s1) = Inr s'" and
    f: "set fhs = {0..<length files}"
    by blast
  from build_handlers_fresh [OF b x] have p1: "ParentHandlers (s1 x) = []" by auto
  from n have "{0 + i | i. i < length files
       \<and> x \<in> set (concat (Directives (files ! i))) \<and> x \<noteq> 0 + i} = {}"
    by auto
  with p1 have "set (ParentHandlers (configure_files files 0 s1 x)) = {}"
    unfolding configure_files_parents by simp
  with merge_all_Inr [OF m, of x] have "set (ParentHandlers (s' x)) = {}" by simp
  with f x show ?thesis by simp
qed

lemma ConfigureHandlers_not_own_parent:
  assumes c: "ConfigureHandlers fuel reg files = Some (Inr (fhs, s'))"
    and x: "x < length files"
  shows "x \<notin> set (ParentHandlers (s' x))"
proof -
  from ConfigureHandlers_Inr [OF c] obtain s1 where
    b: "build_handlers fuel reg files 0 empty_store = Some (Inr s1)" and
    m: "merge_all fhs (configure_files files 0 s1) = Inr s'"
    by blast
  from build_handlers_fresh [OF b x] have p1: "ParentHandlers (s1 x) = []" by auto
  have "x \<notin> {0 + i | i. i < length files
       \<and> x \<in> set (concat (Directives (files ! i))) \<and> x \<noteq> 0 + i}"
    by auto
  with p1 have "x \<notin> set (ParentHandlers (configure_files files 0 s1 x))"
    unfolding configure_files_parents by simp
  with merge_all_Inr [OF m, of x] show ?thesis by simp
qed

lemma WriteOutput_loop_roots:
  "set (fst (WriteOutput_loop io s fhs written))
     \<subseteq> set written \<union> {k \<in> set fhs. ParentHandlers (s k) = []}"
proof (induction fhs arbitrary: written)
  case Nil
  show ?case by simp
next
  case (Cons k fhs)
  show ?case
  proof (cases "0 < length (ParentHandlers (s k))")
    case True
    with Cons.IH [of written] show ?thesis by auto
  next
    case False
    show ?thesis
    proof (cases "io k")
      case None
      with False Cons.IH [of "written @ [k]"] show ?thesis by auto
    next
      case (Some e)
      with False show ?thesis by auto
    qed
  qed
qed

lemma ConfigureHandlers_included:
  assumes c: "ConfigureHandlers fuel reg files = Some (Inr (fhs, s'))"
    and y: "y < length files" and ne: "x \<noteq> y"
    and d: "x \<in> set (concat (Directives (files ! y)))"
  shows "y \<in> set (ParentHandlers (s' x)) \<and> x \<notin> set (fst (WriteOutput io s' fhs))"
proof -
  from ConfigureHandlers_Inr [OF c] obtain s1 where
    m: "merge_all fhs (configure_files files 0 s1) = Inr s'"
    by blast
  from y d ne have "\<exists>i. y = 0 + i \<and> i < length files
       \<and> x \<in> set (concat (Directives (files ! i))) \<and> x \<noteq> 0 + i"
    by simp
  then have "y \<in> {0 + i | i. i < length files
       \<and> x \<in> set (concat (Directives (files ! i))) \<and> x \<noteq> 0 + i}"
    by (rule CollectI)
  then have "y \<in> set (ParentHandlers (configure_files files 0 s1 x))"
    unfolding configure_files_parents by (rule UnI2)
  with merge_all_Inr [OF m, of x] have p: "y \<in> set (ParentHandlers (s' x))" by simp
  then have "ParentHandlers (s' x) \<noteq> []" by auto
  with WriteOutput_loop_roots [of io s' "rev fhs" "[]"]
  have "x \<notin> set (fst (WriteOutput io s' fhs))"
    by (auto simp: WriteOutput_def)
  with p show ?thesis by simp
qed

text \<open>
  C10 (the claim as stated fails). In the manifest where file 1 names file 0 in a directive
  and file 0 has no directive, the entries of file 0 are only itself (its \<^verbatim>\<open>FileSet\<close> is
  \<open>[0]\<close>), yet handler 1 is its parent and \<^verbatim>\<open>WriteOutput\<close> writes the output of
  handler 1 only.
\<close>

theorem included_file_is_not_written:
  "\<exists>fhs s. ConfigureHandlers 1 registeredHandlers_init js_files = Some (Inr (fhs, s))
     \<and> concat (Directives (js_files ! 0)) = []
     \<and> FileSet (s 0) = [0]
     \<and> ParentHandlers (s 0) = [1]
     \<and> WriteOutput no_io_error s fhs = ([1], None)"
  by (simp add: js_files_def no_io_error_def eval_defs)

text \<open>
  C10 (amended). Adding a handler to itself appends it to its own \<^verbatim>\<open>FileSet\<close> and
  changes no \<^verbatim>\<open>ParentHandlers\<close> list. After a successful \<^const>\<open>ConfigureHandlers\<close> no
  handler of the manifest is among its own parents, and a file that no other file names in a
  directive has no parent, whatever its own entries are, and is among
  \<^verbatim>\<open>manifest.fileHandlers\<close>; \<^const>\<open>WriteOutput\<close> writes its output when no step fails.
  A file that another file names in a directive has that file among its parents, whatever
  its own entries are, and \<^const>\<open>WriteOutput\<close> does not write its output, whatever the
  outcome of the steps.
\<close>

theorem self_inclusion_is_no_parent:
  "FileSet (AddFileHandler fh fh s fh) = FileSet (s fh) @ [fh]
   \<and> ParentHandlers (AddFileHandler fh fh s k) = ParentHandlers (s k)
   \<and> (ConfigureHandlers fuel reg files = Some (Inr (fhs, s')) \<and> x < length files \<longrightarrow>
        x \<notin> set (ParentHandlers (s' x)))
   \<and> (ConfigureHandlers fuel reg files = Some (Inr (fhs, s')) \<and> x < length files
        \<and> (\<forall>j<length files. j \<noteq> x \<longrightarrow> x \<notin> set (concat (Directives (files ! j)))) \<longrightarrow>
      ParentHandlers (s' x) = [] \<and> x \<in> set fhs
        \<and> ((\<forall>j. io j = None) \<longrightarrow> x \<in> set (fst (WriteOutput io s' fhs))))
   \<and> (ConfigureHandlers fuel reg files = Some (Inr (fhs, s')) \<and> y < length files
        \<and> x \<noteq> y \<and> x \<in> set (concat (Directives (files ! y))) \<longrightarrow>
      y \<in> set (ParentHandlers (s' x)) \<and> ParentHandlers (s' x) \<noteq> []
        \<and> x \<notin> set (fst (WriteOutput io s' fhs)))"
proof (intro conjI impI)
  show "FileSet (AddFileHandler fh fh s fh) = FileSet (s fh) @ [fh]"
    by (simp add: AddFileHandler_fields)
  show "ParentHandlers (AddFileHandler fh fh s k) = ParentHandlers (s k)"
    by (simp add: AddFileHandler_fields)
next
  assume "ConfigureHandlers fuel reg files = Some (Inr (fhs, s')) \<and> x < length files"
  then show "x \<notin> set (ParentHandlers (s' x))"
    using ConfigureHandlers_not_own_parent [of fuel reg files fhs s' x] by blast
next
  assume h: "ConfigureHandlers fuel reg files = Some (Inr (fhs, s')) \<and> x < length files
        \<and> (\<forall>j<length files. j \<noteq> x \<longrightarrow> x \<notin> set (concat (Directives (files ! j))))"
  then have r: "ParentHandlers (s' x) = [] \<and> x \<in> set fhs"
    using ConfigureHandlers_root [of fuel reg files fhs s' x] by blast
  from r show "ParentHandlers (s' x) = []" by (rule conjunct1)
  from r show "x \<in> set fhs" by (rule conjunct2)
  assume io: "\<forall>j. io j = None"
  from WriteOutput_loop_written [OF io, of s' "rev fhs" "[]"] r
  show "x \<in> set (fst (WriteOutput io s' fhs))"
    by (simp add: WriteOutput_def)
next
  assume h: "ConfigureHandlers fuel reg files = Some (Inr (fhs, s')) \<and> y < length files
        \<and> x \<noteq> y \<and> x \<in> set (concat (Directives (files ! y)))"
  then have r: "y \<in> set (ParentHandlers (s' x)) \<and> x \<notin> set (fst (WriteOutput io s' fhs))"
    using ConfigureHandlers_included [of fuel reg files fhs s' y x io] by blast
  from r show "y \<in> set (ParentHandlers (s' x))" by (rule conjunct1)
  then show "ParentHandlers (s' x) \<noteq> []" by auto
  from r show "x \<notin> set (fst (WriteOutput io s' fhs))" by (rule conjunct2)
qed

theorem self_inclusion_is_no_parent_witness:
  "(\<exists>fhs s'. ConfigureHandlers 1 registeredHandlers_init lone_files = Some (Inr (fhs, s'))
     \<and> (0::nat) < length lone_files
     \<and> 0 \<notin> set (concat (Directives (lone_files ! 1)))
     \<and> concat (Directives (lone_files ! 0)) = [0]
     \<and> FileSet (s' 0) = [0]
     \<and> 0 \<notin> set (ParentHandlers (s' 0))
     \<and> ParentHandlers (s' 0) = []
     \<and> no_io_error 0 = None
     \<and> 0 \<in> set (fst (WriteOutput no_io_error s' fhs)))
   \<and> (\<exists>fhs s'. ConfigureHandlers 1 registeredHandlers_init js_files = Some (Inr (fhs, s'))
     \<and> (1::nat) < length js_files
     \<and> (0::nat) \<noteq> 1
     \<and> 0 \<in> set (concat (Directives (js_files ! 1)))
     \<and> concat (Directives (js_files ! 0)) = []
     \<and> FileSet (s' 0) = [0]
     \<and> 1 \<in> set (ParentHandlers (s' 0))
     \<and> 0 \<notin> set (fst (WriteOutput no_io_error s' fhs)))"
proof (rule conjI)
  have "\<exists>fhs s'. ConfigureHandlers 1 registeredHandlers_init lone_files = Some (Inr (fhs, s'))
      \<and> FileSet (s' 0) = [0]"
    by (simp add: lone_files_def eval_defs)
  then obtain fhs s' where
    c: "ConfigureHandlers 1 registeredHandlers_init lone_files = Some (Inr (fhs, s'))" and
    f: "FileSet (s' 0) = [0]"
    by blast
  have l: "(0::nat) < length lone_files" by (simp add: lone_files_def)
  have d: "0 \<notin> set (concat (Directives (lone_files ! 1)))"
    "concat (Directives (lone_files ! 0)) = [0]"
    by (simp_all add: lone_files_def)
  have n: "\<forall>j<length lone_files. j \<noteq> 0 \<longrightarrow> 0 \<notin> set (concat (Directives (lone_files ! j)))"
    by (simp add: lone_files_def less_Suc_eq)
  have io: "\<forall>j. no_io_error j = None" by (simp add: no_io_error_def)
  from self_inclusion_is_no_parent
    [of 0 empty_store 0 1 registeredHandlers_init lone_files fhs s' 0 no_io_error] c l n io
  have "0 \<notin> set (ParentHandlers (s' 0)) \<and> ParentHandlers (s' 0) = []
      \<and> 0 \<in> set (fst (WriteOutput no_io_error s' fhs))"
    by blast
  with c l d f io show "\<exists>fhs s'. ConfigureHandlers 1 registeredHandlers_init lone_files = Some (Inr (fhs, s'))
     \<and> (0::nat) < length lone_files
     \<and> 0 \<notin> set (concat (Directives (lone_files ! 1)))
     \<and> concat (Directives (lone_files ! 0)) = [0]
     \<and> FileSet (s' 0) = [0]
     \<and> 0 \<notin> set (ParentHandlers (s' 0))
     \<and> ParentHandlers (s' 0) = []
     \<and> no_io_error 0 = None
     \<and> 0 \<in> set (fst (WriteOutput no_io_error s' fhs))"
    by blast
next
  have "\<exists>fhs s'. ConfigureHandlers 1 registeredHandlers_init js_files = Some (Inr (fhs, s'))
      \<and> FileSet (s' 0) = [0]"
    by (simp add: js_files_def eval_defs)
  then obtain fhs s' where
    c: "ConfigureHandlers 1 registeredHandlers_init js_files = Some (Inr (fhs, s'))" and
    f: "FileSet (s' 0) = [0]"
    by blast
  have l: "(1::nat) < length js_files" by (simp add: js_files_def)
  have d: "0 \<in> set (concat (Directives (js_files ! 1)))"
    "concat (Directives (js_files ! 0)) = []"
    by (simp_all add: js_files_def)
  have ne: "(0::nat) \<noteq> 1" by simp
  from self_inclusion_is_no_parent
    [of 0 empty_store 0 1 registeredHandlers_init js_files fhs s' 0 no_io_error 1] c l ne d(1)
  have "1 \<in> set (ParentHandlers (s' 0)) \<and> 0 \<notin> set (fst (WriteOutput no_io_error s' fhs))"
    by blast
  with c l ne d f show "\<exists>fhs s'. ConfigureHandlers 1 registeredHandlers_init js_files = Some (Inr (fhs, s'))
     \<and> (1::nat) < length js_files
     \<and> (0::nat) \<noteq> 1
     \<and> 0 \<in> set (concat (Directives (js_files ! 1)))
     \<and> concat (Directives (js_files ! 0)) = []
     \<and> FileSet (s' 0) = [0]
     \<and> 1 \<in> set (ParentHandlers (s' 0))
     \<and> 0 \<notin> set (fst (WriteOutput no_io_error s' fhs))"
    by blast
qed

end
